theory Spec2Isabelle
  imports Complex_Main "HOL-Library.Sublist"
begin

section \<open>Arrays, errors and the numerical library\<close>

text \<open>
  The program is a notebook (\<^verbatim>\<open>src/python/LQR.ipynb\<close>) that synthesises an LQR balance
  controller on top of the MuJoCo simulator, numpy and scipy. One-dimensional arrays are
  lists, two-dimensional arrays are lists of rows. Array entries are 64-bit floats in the
  program; here they are real numbers, so rounding is not modelled. The shapes of all arrays
  are fixed by the model dimensions \<open>nv\<close> and \<open>nu\<close> at allocation; a theorem that needs a
  shape states it as a hypothesis. Exceptions the program can raise because of the values it
  reads (an index out of range, an unknown name, an empty sequence, a division by zero) are
  branches of the model.
\<close>

datatype error = IndexError | KeyError | ValueError | ZeroDivisionError

type_synonym vec = "real list"
type_synonym 'a mat = "'a list list"

text \<open>\<^verbatim>\<open>xs[i]\<close> for a non-negative index.\<close>

definition get :: "'a list \<Rightarrow> nat \<Rightarrow> error + 'a" where
  "get xs i = (if i < length xs then Inr (xs ! i) else Inl IndexError)"

text \<open>
  \<^verbatim>\<open>np.linspace(start, stop, num)\<close>: \<open>num\<close> samples \<open>start + i * step\<close> with
  \<open>step = (stop - start) / (num - 1)\<close>, the last one set to \<open>stop\<close>.
\<close>

definition linspace :: "real \<Rightarrow> real \<Rightarrow> nat \<Rightarrow> vec" where
  "linspace start stop num =
     (if num = 0 then []
      else if num = 1 then [start]
      else map (\<lambda>i. start + real i * ((stop - start) / real (num - 1))) [0..<num - 1] @ [stop])"

text \<open>
  \<^verbatim>\<open>np.argmin\<close>: the index of the first occurrence of the least entry; an empty
  sequence raises \<^verbatim>\<open>ValueError\<close>. The loop keeps the best index and value seen so far and
  replaces them only on a strictly smaller entry.
\<close>

fun argmin_loop :: "real list \<Rightarrow> nat \<Rightarrow> nat \<Rightarrow> real \<Rightarrow> nat" where
  "argmin_loop [] i best bv = best"
| "argmin_loop (x # xs) i best bv =
     (if x < bv then argmin_loop xs (Suc i) i x else argmin_loop xs (Suc i) best bv)"

definition argmin :: "real list \<Rightarrow> error + nat" where
  "argmin xs = (case xs of [] \<Rightarrow> Inl ValueError | x # rest \<Rightarrow> Inr (argmin_loop rest 1 0 x))"

text \<open>
  Two-dimensional arrays. \<open>mat_shape r c A\<close> says that \<open>A\<close> has \<open>r\<close> rows of length
  \<open>c\<close> (\<^verbatim>\<open>A.shape == (r, c)\<close>). \<open>mk_mat r c f\<close> is the array of that shape with entry
  \<open>f i j\<close> in row \<open>i\<close> and column \<open>j\<close>; \<^verbatim>\<open>np.zeros((r, c))\<close> and \<^verbatim>\<open>np.eye(n)\<close>
  are instances.
\<close>

definition mat_shape :: "nat \<Rightarrow> nat \<Rightarrow> 'a mat \<Rightarrow> bool" where
  "mat_shape r c A = (length A = r \<and> (\<forall>row\<in>set A. length row = c))"

definition nrows :: "'a mat \<Rightarrow> nat" where
  "nrows A = length A"

definition ncols :: "'a mat \<Rightarrow> nat" where
  "ncols A = (case A of [] \<Rightarrow> 0 | row # _ \<Rightarrow> length row)"

definition mk_mat :: "nat \<Rightarrow> nat \<Rightarrow> (nat \<Rightarrow> nat \<Rightarrow> 'a) \<Rightarrow> 'a mat" where
  "mk_mat r c f = map (\<lambda>i. map (\<lambda>j. f i j) [0..<c]) [0..<r]"



text \<open>
  \<^verbatim>\<open>A.T\<close>, \<^verbatim>\<open>A @ B\<close> for two-dimensional operands, the inner product of two vectors,
  and \<^verbatim>\<open>A @ v\<close> for a vector \<open>v\<close>.
\<close>

definition transpose_m :: "real mat \<Rightarrow> real mat" where
  "transpose_m A = mk_mat (ncols A) (nrows A) (\<lambda>j i. A ! i ! j)"

definition matmul :: "real mat \<Rightarrow> real mat \<Rightarrow> real mat" where
  "matmul A B = mk_mat (nrows A) (ncols B) (\<lambda>i j. \<Sum>k<ncols A. A ! i ! k * B ! k ! j)"

definition dot :: "vec \<Rightarrow> vec \<Rightarrow> real" where
  "dot u v = (\<Sum>k<length u. u ! k * v ! k)"

definition matvec :: "real mat \<Rightarrow> vec \<Rightarrow> vec" where
  "matvec A v = map (\<lambda>row. dot row v) A"

text \<open>
  Elementwise operations on arrays of equal shape, and scaling by a number. When the
  shapes differ numpy raises (or repeats an operand of length one); the operands of the
  notebook have equal shapes, and here the shorter operand decides the length.
\<close>

definition vadd :: "vec \<Rightarrow> vec \<Rightarrow> vec" where
  "vadd u v = map2 (+) u v"

definition vsub :: "vec \<Rightarrow> vec \<Rightarrow> vec" where
  "vsub u v = map2 (-) u v"

definition vmul :: "vec \<Rightarrow> vec \<Rightarrow> vec" where
  "vmul u v = map2 (*) u v"




text \<open>
  \<^verbatim>\<open>np.atleast_2d\<close> of a vector, \<^verbatim>\<open>flatten\<close>, and \<^verbatim>\<open>np.block([[A, B], [C]])\<close>, which
  puts \<open>B\<close> to the right of \<open>A\<close> and \<open>C\<close> below both.
\<close>

definition atleast_2d :: "vec \<Rightarrow> real mat" where
  "atleast_2d v = [v]"

definition flatten :: "real mat \<Rightarrow> vec" where
  "flatten A = concat A"


text \<open>
  The functions of numpy and scipy that the notebook calls and that are not modelled: they
  are parameters. \<open>pinv\<close> and \<open>linalg_inv\<close> are \<^verbatim>\<open>np.linalg.pinv\<close> and
  \<^verbatim>\<open>np.linalg.inv\<close>, \<open>solve_discrete_are\<close> is \<^verbatim>\<open>scipy.linalg.solve_discrete_are\<close>,
  \<open>np_exp\<close> and \<open>linalg_norm\<close> are \<^verbatim>\<open>np.exp\<close> on a number and \<^verbatim>\<open>np.linalg.norm\<close>.
  The global random generator has a state of type \<open>'g\<close>:
  \<open>random_seed\<close> is the state that \<^verbatim>\<open>np.random.seed(s)\<close> installs, \<open>random_randn g r c\<close>
  is the array \<^verbatim>\<open>np.random.randn(r, c)\<close> drawn in state \<open>g\<close> together with the state
  after the draw.
\<close>

record 'g numpy =
  pinv :: "real mat \<Rightarrow> real mat"
  linalg_inv :: "real mat \<Rightarrow> real mat"
  solve_discrete_are :: "real mat \<Rightarrow> real mat \<Rightarrow> real mat \<Rightarrow> real mat \<Rightarrow> real mat"
  np_exp :: "real \<Rightarrow> real"
  linalg_norm :: "vec \<Rightarrow> real"
  random_seed :: "nat \<Rightarrow> 'g"
  random_randn :: "'g \<Rightarrow> nat \<Rightarrow> nat \<Rightarrow> real mat \<times> 'g"

section \<open>The simulator\<close>

text \<open>
  \<^verbatim>\<open>mujoco.MjData\<close>: the fields of the simulation state that the notebook reads or
  writes.
\<close>

record mjData =
  qpos :: vec
  qvel :: vec
  qacc :: vec
  ctrl :: vec
  time :: real
  qfrc_inverse :: vec

text \<open>
  \<^verbatim>\<open>mujoco.MjModel\<close> together with the simulator's functions, which are not part of the
  repository and are parameters of the development: \<open>nv\<close> and \<open>nu\<close> are the numbers of
  degrees of freedom and of actuators, \<open>opt_timestep\<close> is \<^verbatim>\<open>model.opt.timestep\<close>,
  \<open>joints\<close> lists each joint's name with its first degree of freedom
  (\<^verbatim>\<open>model.joint(i).name\<close>, \<^verbatim>\<open>model.joint(i).dofadr[0]\<close>) in the order of the joint ids,
  \<open>actuator_trnid\<close> gives the joint id an actuator drives
  (\<^verbatim>\<open>model.actuator(i).trnid[0]\<close>), \<open>body_id\<close> the id of a named body
  (\<^verbatim>\<open>model.body(name).id\<close>, which raises \<^verbatim>\<open>KeyError\<close> for an unknown name). The
  Jacobian functions give the entry in row \<open>i\<close> and column \<open>j\<close> that the simulator writes
  into the array it is handed. \<open>mj_differentiatePos dt q1 q2\<close> is the vector of length
  \<open>nv\<close> that \<^verbatim>\<open>mj_differentiatePos(model, dq, dt, q1, q2)\<close> writes into \<open>dq\<close>. The
  reset functions overwrite the whole state, so they take no state.
\<close>

record mujoco =
  nv :: nat
  nu :: nat
  opt_timestep :: real
  joints :: "(string \<times> nat) list"
  actuator_trnid :: "nat \<Rightarrow> nat"
  body_id :: "string \<Rightarrow> nat option"
  mj_resetData :: mjData
  mj_resetDataKeyframe :: "nat \<Rightarrow> mjData"
  mj_forward :: "mjData \<Rightarrow> mjData"
  mj_inverse :: "mjData \<Rightarrow> mjData"
  mj_step :: "mjData \<Rightarrow> mjData"
  mj_differentiatePos :: "real \<Rightarrow> vec \<Rightarrow> vec \<Rightarrow> vec"
  mj_jacSubtreeCom :: "mjData \<Rightarrow> nat \<Rightarrow> nat \<Rightarrow> nat \<Rightarrow> real"
  mj_jacBodyCom :: "mjData \<Rightarrow> nat \<Rightarrow> nat \<Rightarrow> nat \<Rightarrow> real"

section \<open>Trim solver\<close>

text \<open>
  The body of the scan loop up to the call of the inverse dynamics:
  \<^verbatim>\<open>
  mujoco.mj_resetDataKeyframe(model, data, 1)
  mujoco.mj_forward(model, data)
  data.qacc = 0
  data.qpos[2] += offset
  \<close>
\<close>

definition offset_state :: "mujoco \<Rightarrow> real \<Rightarrow> error + mjData" where
  "offset_state M offset =
     (let d = mj_forward M (mj_resetDataKeyframe M 1);
          d = d\<lparr>qacc := map (\<lambda>_. 0) (qacc d)\<rparr>
      in if 2 < length (qpos d)
         then Inr (d\<lparr>qpos := (qpos d)[2 := qpos d ! 2 + offset]\<rparr>)
         else Inl IndexError)"

text \<open>
  \<^verbatim>\<open>mujoco.mj_inverse(model, data)\<close> followed by \<^verbatim>\<open>data.qfrc_inverse[2]\<close>: the force
  that the zero-acceleration assertion requires in the vertical degree of freedom of the
  root joint.
\<close>

definition vertical_force :: "mujoco \<Rightarrow> real \<Rightarrow> error + real" where
  "vertical_force M offset =
     (case offset_state M offset of
        Inl e \<Rightarrow> Inl e
      | Inr d \<Rightarrow> get (qfrc_inverse (mj_inverse M d)) 2)"

definition height_offsets :: vec where
  "height_offsets = linspace (- (1 / 1000)) (1 / 1000) 2001"

text \<open>\<^verbatim>\<open>for offset in height_offsets: ... vertical_forces.append(...)\<close>\<close>

fun scan_forces :: "mujoco \<Rightarrow> vec \<Rightarrow> error + vec" where
  "scan_forces M [] = Inr []"
| "scan_forces M (offset # rest) =
     (case vertical_force M offset of
        Inl e \<Rightarrow> Inl e
      | Inr f \<Rightarrow> (case scan_forces M rest of Inl e \<Rightarrow> Inl e | Inr fs \<Rightarrow> Inr (f # fs)))"

text \<open>
  \<^verbatim>\<open>
  idx = np.argmin(np.abs(vertical_forces))
  best_offset = height_offsets[idx]
  \<close>
\<close>

definition best_offset :: "mujoco \<Rightarrow> error + real" where
  "best_offset M =
     (case scan_forces M height_offsets of
        Inl e \<Rightarrow> Inl e
      | Inr vertical_forces \<Rightarrow>
          (case argmin (map abs vertical_forces) of
             Inl e \<Rightarrow> Inl e
           | Inr idx \<Rightarrow> get height_offsets idx))"


text \<open>
  The control setpoint, from the residual force and the dense \<open>nu\<close> by \<open>nv\<close> moment matrix
  that \<^verbatim>\<open>mju_sparse2dense\<close> fills:
  \<^verbatim>\<open>
  ctrl0 = np.atleast_2d(qfrc0) @ np.linalg.pinv(actuator_moment)
  ctrl0 = ctrl0.flatten()
  \<close>
\<close>

definition ctrl_setpoint :: "'g numpy \<Rightarrow> real mat \<Rightarrow> vec \<Rightarrow> vec" where
  "ctrl_setpoint L actuator_moment qfrc0 =
     flatten (matmul (atleast_2d qfrc0) (pinv L actuator_moment))"

text \<open>
  The squared error of \<open>u\<close> as a solution of \<open>A\<^sup>T u = f\<close>, and the four conditions that
  make \<open>X\<close> the Moore-Penrose pseudo-inverse of \<open>A\<close>.
\<close>

definition sq_residual :: "real mat \<Rightarrow> vec \<Rightarrow> vec \<Rightarrow> real" where
  "sq_residual A f u = (let r = vsub (matvec (transpose_m A) u) f in dot r r)"

definition moore_penrose :: "real mat \<Rightarrow> real mat \<Rightarrow> bool" where
  "moore_penrose A X =
     (matmul (matmul A X) A = A \<and> matmul (matmul X A) X = X
      \<and> transpose_m (matmul A X) = matmul A X \<and> transpose_m (matmul X A) = matmul X A)"

section \<open>Cost matrices\<close>



text \<open>
  The sets of degrees of freedom. A joint is looked up by its name; the names come from the
  model's own joints.
  \<^verbatim>\<open>
  joint_names = [model.joint(i).name for i in range(model.njnt)]
  root_dofs = range(6)
  body_dofs = range(6, nv)
  abdomen_dofs = [model.joint(name).dofadr[0] for name in joint_names
                  if 'abdomen' in name and not 'z' in name]
  left_leg_dofs = [model.joint(name).dofadr[0] for name in joint_names
                   if 'left' in name
                   and ('hip' in name or 'knee' in name or 'ankle' in name)
                   and not 'z' in name]
  balance_dofs = abdomen_dofs + left_leg_dofs
  other_dofs = np.setdiff1d(body_dofs, balance_dofs)
  \<close>
\<close>

definition joint_names :: "mujoco \<Rightarrow> string list" where
  "joint_names M = map fst (joints M)"



definition abdomen_dofs :: "mujoco \<Rightarrow> nat list" where
  "abdomen_dofs M =
     List.map_filter
       (\<lambda>name. if sublist ''abdomen'' name \<and> \<not> sublist ''z'' name
               then map_of (joints M) name else None)
       (joint_names M)"

definition left_leg_dofs :: "mujoco \<Rightarrow> nat list" where
  "left_leg_dofs M =
     List.map_filter
       (\<lambda>name. if sublist ''left'' name
                  \<and> (sublist ''hip'' name \<or> sublist ''knee'' name \<or> sublist ''ankle'' name)
                  \<and> \<not> sublist ''z'' name
               then map_of (joints M) name else None)
       (joint_names M)"

definition balance_dofs :: "mujoco \<Rightarrow> nat list" where
  "balance_dofs M = abdomen_dofs M @ left_leg_dofs M"










section \<open>Linearization and gain\<close>








section \<open>Closed-loop controller\<close>

text \<open>
  The command of one control tick:
  \<^verbatim>\<open>
  mujoco.mj_differentiatePos(model, dq, 1, qpos0, data.qpos)
  dx = np.hstack((dq, data.qvel)).T
  data.ctrl = ctrl0 - K @ dx
  \<close>
  and the tick itself, which ends with \<^verbatim>\<open>mujoco.mj_step(model, data)\<close>. Rendering is left
  out.
\<close>

definition lqr_ctrl :: "mujoco \<Rightarrow> vec \<Rightarrow> vec \<Rightarrow> real mat \<Rightarrow> mjData \<Rightarrow> vec" where
  "lqr_ctrl M qpos0 ctrl0 K d =
     (let dq = mj_differentiatePos M 1 qpos0 (qpos d);
          dx = dq @ qvel d
      in vsub ctrl0 (matvec K dx))"

definition lqr_tick :: "mujoco \<Rightarrow> vec \<Rightarrow> vec \<Rightarrow> real mat \<Rightarrow> mjData \<Rightarrow> mjData" where
  "lqr_tick M qpos0 ctrl0 K d = mj_step M (d\<lparr>ctrl := lqr_ctrl M qpos0 ctrl0 K d\<rparr>)"

text \<open>
  The standing run, five simulated seconds from the trim position:
  \<^verbatim>\<open>
  mujoco.mj_resetData(model, data)
  data.qpos = qpos0
  while data.time < DURATION: ...
  \<close>
  The loop ends when the simulator's clock reaches the duration; whether it does depends
  on the simulator.
\<close>

definition DURATION_standing :: real where
  "DURATION_standing = 5"

partial_function (option) lqr_loop ::
  "mujoco \<Rightarrow> vec \<Rightarrow> vec \<Rightarrow> real mat \<Rightarrow> mjData \<Rightarrow> mjData option" where
  "lqr_loop M qpos0 ctrl0 K d =
     (if time d < DURATION_standing
      then lqr_loop M qpos0 ctrl0 K (lqr_tick M qpos0 ctrl0 K d)
      else Some d)"

declare lqr_loop.simps [code]

definition lqr_run :: "mujoco \<Rightarrow> vec \<Rightarrow> vec \<Rightarrow> real mat \<Rightarrow> mjData option" where
  "lqr_run M qpos0 ctrl0 K = lqr_loop M qpos0 ctrl0 K ((mj_resetData M)\<lparr>qpos := qpos0\<rparr>)"

text \<open>
  The control law in the words of the specification: the state deviation is the
  manifold difference of the positions followed by the difference of the velocities, and
  the command is the setpoint minus the gain applied to the deviation.
\<close>

definition state_deviation :: "mujoco \<Rightarrow> vec \<Rightarrow> vec \<Rightarrow> mjData \<Rightarrow> vec" where
  "state_deviation M q0 v0 d = mj_differentiatePos M 1 q0 (qpos d) @ vsub (qvel d) v0"

definition control_law :: "vec \<Rightarrow> real mat \<Rightarrow> vec \<Rightarrow> vec" where
  "control_law u0 K dx = vsub u0 (matvec K dx)"

section \<open>Disturbance and the disturbed run\<close>

definition DURATION :: real where
  "DURATION = 12"

definition CTRL_RATE :: real where
  "CTRL_RATE = 8 / 10"

definition BALANCE_STD :: real where
  "BALANCE_STD = 1 / 100"

definition OTHER_STD :: real where
  "OTHER_STD = 8 / 100"

text \<open>
  \<^verbatim>\<open>nsteps = int(np.ceil(DURATION/model.opt.timestep))\<close>: the division raises for a zero
  time step. The result is an integer that can be negative.
\<close>

definition nsteps :: "mujoco \<Rightarrow> error + int" where
  "nsteps M =
     (if opt_timestep M = 0 then Inl ZeroDivisionError
      else Inr \<lceil>DURATION / opt_timestep M\<rceil>)"

text \<open>
  \<^verbatim>\<open>
  for i in range(nu):
    joint = model.actuator(i).trnid[0]
    dof = model.joint(joint).dofadr[0]
    CTRL_STD[i] = BALANCE_STD if dof in balance_dofs else OTHER_STD
  \<close>
  A joint id outside the model's joints raises.
\<close>

fun ctrl_std_loop :: "mujoco \<Rightarrow> nat list \<Rightarrow> error + vec" where
  "ctrl_std_loop M [] = Inr []"
| "ctrl_std_loop M (i # rest) =
     (case get (joints M) (actuator_trnid M i) of
        Inl e \<Rightarrow> Inl e
      | Inr joint \<Rightarrow>
          (case ctrl_std_loop M rest of
             Inl e \<Rightarrow> Inl e
           | Inr stds \<Rightarrow>
               Inr ((if snd joint \<in> set (balance_dofs M) then BALANCE_STD else OTHER_STD) # stds)))"

definition CTRL_STD :: "mujoco \<Rightarrow> error + vec" where
  "CTRL_STD M = ctrl_std_loop M [0..<nu M]"

text \<open>
  \<^verbatim>\<open>np.convolve(a, v, mode='same')\<close>: the full convolution has length
  \<open>len(a) + len(v) - 1\<close>; the result is its middle part of length \<open>max(len(a), len(v))\<close>,
  which starts at index \<open>(min(len(a), len(v)) - 1) // 2\<close>. An empty operand raises
  \<^verbatim>\<open>ValueError\<close>.
\<close>

definition convolve_full :: "vec \<Rightarrow> vec \<Rightarrow> vec" where
  "convolve_full a v =
     map (\<lambda>n. \<Sum>m<length a. if m \<le> n \<and> n - m < length v then a ! m * v ! (n - m) else 0)
       [0..<length a + length v - 1]"

definition convolve_same :: "vec \<Rightarrow> vec \<Rightarrow> error + vec" where
  "convolve_same a v =
     (if a = [] \<or> v = [] then Inl ValueError
      else Inr (take (max (length a) (length v))
                  (drop ((min (length a) (length v) - 1) div 2) (convolve_full a v))))"

text \<open>
  \<^verbatim>\<open>
  width = int(nsteps * CTRL_RATE/DURATION)
  kernel = np.exp(-0.5*np.linspace(-3, 3, width)**2)
  kernel /= np.linalg.norm(kernel)
  \<close>
  The conversion to \<open>int\<close> rounds towards zero; the operand is not negative here.
\<close>

definition kernel :: "'g numpy \<Rightarrow> nat \<Rightarrow> vec" where
  "kernel L n =
     (let width = nat \<lfloor>real n * CTRL_RATE / DURATION\<rfloor>;
          k = map (\<lambda>x. np_exp L (- (1 / 2) * x\<^sup>2)) (linspace (- 3) 3 width)
      in map (\<lambda>y. y / linalg_norm L k) k)"

text \<open>
  \<^verbatim>\<open>
  for i in range(nu):
    perturb[:, i] = np.convolve(perturb[:, i], kernel, mode='same')
  \<close>
  The columns are smoothed one after the other; the first failure ends the loop. The
  smoothed column is written into the column it came from.
\<close>

definition column :: "real mat \<Rightarrow> nat \<Rightarrow> vec" where
  "column A i = map (\<lambda>row. row ! i) A"

fun smooth_loop :: "vec \<Rightarrow> real mat \<Rightarrow> nat list \<Rightarrow> error + real mat" where
  "smooth_loop k perturb [] = Inr perturb"
| "smooth_loop k perturb (i # rest) =
     (case convolve_same (column perturb i) k of
        Inl e \<Rightarrow> Inl e
      | Inr c \<Rightarrow>
          if length c = length perturb
          then smooth_loop k (map (\<lambda>s. (perturb ! s)[i := c ! s]) [0..<length perturb]) rest
          else Inl ValueError)"

text \<open>
  The disturbance of the final run. The program's random generator is global: \<open>g\<close> is its
  state when the cell starts, and the state after the draw is part of the result.
  \<^verbatim>\<open>
  np.random.seed(1)
  nsteps = int(np.ceil(DURATION/model.opt.timestep))
  perturb = np.random.randn(nsteps, nu)
  \<close>
  A negative number of rows raises \<^verbatim>\<open>ValueError\<close>.
\<close>

definition disturbance :: "mujoco \<Rightarrow> 'g numpy \<Rightarrow> 'g \<Rightarrow> error + (vec \<times> real mat \<times> 'g)" where
  "disturbance M L g =
     (let g1 = random_seed L 1
      in case nsteps M of
           Inl e \<Rightarrow> Inl e
         | Inr n \<Rightarrow>
             if n < 0 then Inl ValueError
             else
               (let (perturb, g2) = random_randn L g1 (nat n) (nu M)
                in case CTRL_STD M of
                     Inl e \<Rightarrow> Inl e
                   | Inr stds \<Rightarrow>
                       (case smooth_loop (kernel L (nat n)) perturb [0..<nu M] of
                          Inl e \<Rightarrow> Inl e
                        | Inr smoothed \<Rightarrow> Inr (stds, smoothed, g2))))"

text \<open>
  One tick of the disturbed run, on the state and the step counter:
  \<^verbatim>\<open>
  data.ctrl = ctrl0 - K @ dx
  data.ctrl += CTRL_STD * perturb[step]
  step += 1
  mujoco.mj_step(model, data)
  \<close>
  \<^verbatim>\<open>perturb[step]\<close> raises \<^verbatim>\<open>IndexError\<close> when \<open>step\<close> is not a row of \<open>perturb\<close>.
\<close>

definition disturbed_tick ::
  "mujoco \<Rightarrow> vec \<Rightarrow> vec \<Rightarrow> real mat \<Rightarrow> vec \<Rightarrow> real mat \<Rightarrow> mjData \<times> nat \<Rightarrow> error + mjData \<times> nat" where
  "disturbed_tick M qpos0 ctrl0 K stds perturb s =
     (case s of (d, step) \<Rightarrow>
        (case get perturb step of
           Inl e \<Rightarrow> Inl e
         | Inr p \<Rightarrow>
             Inr (mj_step M (d\<lparr>ctrl := vadd (lqr_ctrl M qpos0 ctrl0 K d) (vmul stds p)\<rparr>),
                  step + 1)))"

partial_function (option) disturbed_loop ::
  "mujoco \<Rightarrow> vec \<Rightarrow> vec \<Rightarrow> real mat \<Rightarrow> vec \<Rightarrow> real mat \<Rightarrow> mjData \<times> nat
    \<Rightarrow> (error + mjData \<times> nat) option" where
  "disturbed_loop M qpos0 ctrl0 K stds perturb s =
     (if time (fst s) < DURATION
      then (case disturbed_tick M qpos0 ctrl0 K stds perturb s of
              Inl e \<Rightarrow> Some (Inl e)
            | Inr s' \<Rightarrow> disturbed_loop M qpos0 ctrl0 K stds perturb s')
      else Some (Inr s))"

declare disturbed_loop.simps [code]

text \<open>
  The whole cell: the disturbance, then the loop from the trim position with the step
  counter at zero. The result holds the final state, the final step counter and the state
  of the random generator.
\<close>

definition disturbed_run ::
  "mujoco \<Rightarrow> 'g numpy \<Rightarrow> 'g \<Rightarrow> vec \<Rightarrow> vec \<Rightarrow> real mat \<Rightarrow> (error + (mjData \<times> nat) \<times> 'g) option" where
  "disturbed_run M L g qpos0 ctrl0 K =
     (case disturbance M L g of
        Inl e \<Rightarrow> Some (Inl e)
      | Inr (stds, perturb, g2) \<Rightarrow>
          (case disturbed_loop M qpos0 ctrl0 K stds perturb ((mj_resetData M)\<lparr>qpos := qpos0\<rparr>, 0) of
             None \<Rightarrow> None
           | Some (Inl e) \<Rightarrow> Some (Inl e)
           | Some (Inr s) \<Rightarrow> Some (Inr (s, g2))))"

section \<open>Small models\<close>

text \<open>
  A model with eight degrees of freedom (a free root joint and two hinges) and one actuator
  on the joint \<open>abdomen_y\<close>, whose required vertical force crosses zero half a millimetre
  below the keyframe height.
\<close>

definition toy_data :: mjData where
  "toy_data = \<lparr>qpos = replicate 9 0, qvel = replicate 8 0, qacc = replicate 8 0,
     ctrl = [0], time = 0, qfrc_inverse = replicate 8 0\<rparr>"

definition toy_model :: mujoco where
  "toy_model = \<lparr>nv = 8, nu = 1, opt_timestep = 1 / 2,
     joints = [(''root'', 0), (''abdomen_y'', 6), (''shoulder1_right'', 7)],
     actuator_trnid = (\<lambda>i. 1),
     body_id = [''torso'' \<mapsto> 1, ''foot_left'' \<mapsto> 2],
     mj_resetData = toy_data,
     mj_resetDataKeyframe = (\<lambda>key. toy_data),
     mj_forward = (\<lambda>d. d),
     mj_inverse =
       (\<lambda>d. d\<lparr>qfrc_inverse := [0, 0, 1000000 * (qpos d ! 2) + 500, 0, 0, 0, 0, 0]\<rparr>),
     mj_step = (\<lambda>d. d\<lparr>time := time d + 1 / 2\<rparr>),
     mj_differentiatePos = (\<lambda>dt q1 q2. map (\<lambda>i. (q2 ! i - q1 ! i) / dt) [0..<8]),
     mj_jacSubtreeCom = (\<lambda>d body i j. if j = i then 1 else 0),
     mj_jacBodyCom = (\<lambda>d body i j. 0)\<rparr>"

text \<open>
  The same figure with a keyframe far above its equilibrium: the required vertical force
  crosses zero five millimetres below the keyframe height, outside the scanned range.
\<close>

definition low_model :: mujoco where
  "low_model =
     toy_model\<lparr>mj_inverse :=
       (\<lambda>d. d\<lparr>qfrc_inverse := [0, 0, 1000000 * (qpos d ! 2) + 5000, 0, 0, 0, 0, 0]\<rparr>)\<rparr>"

text \<open>
  A stand-in for numpy: the transpose is the pseudo-inverse of a matrix with orthonormal
  rows, and the state of the random generator is a counter.
\<close>

definition toy_numpy :: "nat numpy" where
  "toy_numpy = \<lparr>pinv = transpose_m,
     linalg_inv = (\<lambda>A. A),
     solve_discrete_are = (\<lambda>A B Q R. Q),
     np_exp = (\<lambda>x. 1 / (1 + x * x)),
     linalg_norm = (\<lambda>v. sum_list (map abs v)),
     random_seed = (\<lambda>s. s),
     random_randn = (\<lambda>g r c. (mk_mat r c (\<lambda>i j. real ((g + i * c + j) mod 7) - 3), g + r * c))\<rparr>"



section \<open>Properties of the trim solver\<close>




lemma argmin_loop_keep: "\<forall>x\<in>set xs. bv \<le> x \<Longrightarrow> argmin_loop xs i b bv = b"
  by (induction xs arbitrary: i) auto

lemma scan_forces_map:
  "\<forall>off\<in>set offs. vertical_force M off = Inr (g off) \<Longrightarrow> scan_forces M offs = Inr (map g offs)"
  by (induction offs) simp_all

lemma height_offsets_eq:
  "height_offsets = map (\<lambda>i. (real i - 1000) / 1000000) [0..<2001]"
proof -
  have split: "[0..<2001] = [0..<2000] @ [2000::nat]"
    using upt_Suc_append [of 0 2000] by simp
  have pt: "- (1 / 1000) + real i * ((1 / 1000 - - (1 / 1000)) / real (2001 - 1))
      = (real i - 1000) / 1000000" for i :: nat
    by (simp add: field_simps)
  have "height_offsets
      = map (\<lambda>i. - (1 / 1000) + real i * ((1 / 1000 - - (1 / 1000)) / real (2001 - 1))) [0..<2000]
        @ [1 / 1000]"
    by (simp add: height_offsets_def linspace_def)
  also have "\<dots> = map (\<lambda>i. (real i - 1000) / 1000000) [0..<2000] @ [1 / 1000]"
    by (simp only: pt)
  also have "\<dots> = map (\<lambda>i. (real i - 1000) / 1000000) [0..<2001]"
    by (simp add: split)
  finally show ?thesis .
qed

lemma length_height_offsets: "length height_offsets = 2001"
  by (simp add: height_offsets_eq)

lemma nth_height_offsets: "i < 2001 \<Longrightarrow> height_offsets ! i = (real i - 1000) / 1000000"
  by (simp add: height_offsets_eq del: upt_Suc)







lemma low_vertical_force: "vertical_force low_model off = Inr (1000000 * off + 5000)"
  by (simp add: vertical_force_def offset_state_def get_def low_model_def toy_model_def
      toy_data_def)

lemma low_scan:
  "scan_forces low_model height_offsets = Inr (map (\<lambda>off. 1000000 * off + 5000) height_offsets)"
  by (rule scan_forces_map) (simp add: low_vertical_force)

lemma argmin_head_least: "xs \<noteq> [] \<Longrightarrow> \<forall>x\<in>set xs. hd xs \<le> x \<Longrightarrow> argmin xs = Inr 0"
  by (cases xs) (simp_all add: argmin_def argmin_loop_keep)

lemma height_offsets_nonempty: "height_offsets \<noteq> []"
  using length_height_offsets by auto

lemma low_argmin:
  "argmin (map abs (map (\<lambda>off. 1000000 * off + 5000) height_offsets)) = Inr 0"
proof (rule argmin_head_least)
  show "map abs (map (\<lambda>off. 1000000 * off + 5000) height_offsets) \<noteq> []"
    using height_offsets_nonempty by simp
  have hd: "hd (map abs (map (\<lambda>off. 1000000 * off + 5000) height_offsets)) = 4000"
    using height_offsets_nonempty nth_height_offsets [of 0]
    by (simp add: hd_map hd_conv_nth)
  have "4000 \<le> x" if "x \<in> set (map abs (map (\<lambda>off. 1000000 * off + 5000) height_offsets))" for x
  proof -
    from that obtain i where "i < 2001" and x: "x = \<bar>1000000 * ((real i - 1000) / 1000000) + 5000\<bar>"
      by (auto simp: height_offsets_eq)
    have "1000000 * ((real i - 1000) / 1000000) + 5000 = real i + 4000"
      by (simp add: field_simps)
    with x have "x = real i + 4000" by simp
    then show ?thesis by simp
  qed
  with hd show "\<forall>x\<in>set (map abs (map (\<lambda>off. 1000000 * off + 5000) height_offsets)).
      hd (map abs (map (\<lambda>off. 1000000 * off + 5000) height_offsets)) \<le> x"
    by simp
qed

text \<open>
  C2, as stated, fails: for the figure whose equilibrium is five millimetres below the
  keyframe, the absolute force is least at the first scanned offset, and the solver returns
  that boundary offset, -1 mm, as the trim offset; no failure is reported.
\<close>

theorem trim_boundary_counterexample:
  "scan_forces low_model height_offsets = Inr (map (\<lambda>off. 1000000 * off + 5000) height_offsets)
   \<and> argmin (map abs (map (\<lambda>off. 1000000 * off + 5000) height_offsets)) = Inr 0
   \<and> best_offset low_model = Inr (- (1 / 1000))"
proof -
  have "best_offset low_model = Inr (height_offsets ! 0)"
    using low_argmin length_height_offsets by (simp add: best_offset_def low_scan get_def)
  with low_argmin low_scan show ?thesis
    by (simp add: nth_height_offsets)
qed

text \<open>
  C2, amended. The solver has no check of the position of the minimiser: when the scan
  succeeds and the least absolute force is at the first or the last scanned offset, the
  solver returns that boundary offset (-1 mm or +1 mm) as the trim offset.
\<close>

theorem trim_boundary_returned:
  assumes "scan_forces M height_offsets = Inr fs"
    and "argmin (map abs fs) = Inr idx"
    and "idx = 0 \<or> idx = 2000"
  shows "best_offset M = Inr (if idx = 0 then - (1 / 1000) else 1 / 1000)"
proof -
  from assms(3) have lt: "idx < 2001" by auto
  then have "best_offset M = Inr (height_offsets ! idx)"
    using assms(1,2) by (simp add: best_offset_def get_def length_height_offsets)
  moreover have "height_offsets ! idx = (if idx = 0 then - (1 / 1000) else 1 / 1000)"
    using assms(3) by (auto simp: nth_height_offsets)
  ultimately show ?thesis by simp
qed

theorem trim_boundary_returned_witness:
  "scan_forces low_model height_offsets = Inr (map (\<lambda>off. 1000000 * off + 5000) height_offsets)
   \<and> argmin (map abs (map (\<lambda>off. 1000000 * off + 5000) height_offsets)) = Inr 0
   \<and> best_offset low_model = Inr (if (0::nat) = 0 then - (1 / 1000) else 1 / 1000)"
proof -
  have "best_offset low_model = Inr (if (0::nat) = 0 then - (1 / 1000) else 1 / 1000)"
    by (rule trim_boundary_returned [OF low_scan low_argmin]) simp
  with low_argmin low_scan show ?thesis by blast
qed

section \<open>Properties of the array operations\<close>

lemma mk_mat_shape: "mat_shape r c (mk_mat r c f)"
  by (auto simp: mat_shape_def mk_mat_def)

lemma mk_mat_nth: "i < r \<Longrightarrow> j < c \<Longrightarrow> mk_mat r c f ! i ! j = f i j"
  by (simp add: mk_mat_def)

lemma nrows_shape: "mat_shape r c A \<Longrightarrow> nrows A = r"
  by (simp add: mat_shape_def nrows_def)

lemma ncols_shape: "mat_shape r c A \<Longrightarrow> 0 < r \<Longrightarrow> ncols A = c"
  by (cases A) (auto simp: mat_shape_def ncols_def)



lemma transpose_shape: "mat_shape r c A \<Longrightarrow> 0 < r \<Longrightarrow> mat_shape c r (transpose_m A)"
  by (simp add: transpose_m_def nrows_shape ncols_shape mk_mat_shape)

lemma transpose_nth:
  "mat_shape r c A \<Longrightarrow> i < r \<Longrightarrow> j < c \<Longrightarrow> transpose_m A ! j ! i = A ! i ! j"
  by (simp add: transpose_m_def nrows_shape ncols_shape mk_mat_nth)

lemma matmul_shape:
  "mat_shape r n A \<Longrightarrow> mat_shape n c B \<Longrightarrow> 0 < n \<Longrightarrow> mat_shape r c (matmul A B)"
  by (simp add: matmul_def nrows_shape ncols_shape mk_mat_shape)

lemma matmul_nth:
  "mat_shape r n A \<Longrightarrow> mat_shape n c B \<Longrightarrow> 0 < r \<Longrightarrow> 0 < n \<Longrightarrow> i < r \<Longrightarrow> j < c \<Longrightarrow>
   matmul A B ! i ! j = (\<Sum>k<n. A ! i ! k * B ! k ! j)"
  by (simp add: matmul_def nrows_shape ncols_shape mk_mat_nth)

lemma matvec_length: "length (matvec A v) = length A"
  by (simp add: matvec_def)

lemma matvec_nth:
  "mat_shape r c A \<Longrightarrow> i < r \<Longrightarrow> matvec A v ! i = (\<Sum>k<c. A ! i ! k * v ! k)"
  by (simp add: matvec_def dot_def mat_shape_def)

lemma row_vector_form:
  assumes P: "mat_shape n m P" and f: "length f = n" and n: "0 < n"
  shows "flatten (matmul (atleast_2d f) P) = matvec (transpose_m P) f"
proof -
  have sh: "mat_shape 1 n [f]" using f by (simp add: mat_shape_def)
  have dims: "nrows [f] = 1" "ncols [f] = n"
    using f by (simp_all add: nrows_def ncols_def)
  have dimP: "ncols P = m"
    using P n by (rule ncols_shape)
  have "matmul [f] P = [map (\<lambda>j. \<Sum>k<n. f ! k * P ! k ! j) [0..<m]]"
    by (simp add: matmul_def dims dimP mk_mat_def)
  then have lhs: "flatten (matmul (atleast_2d f) P) = map (\<lambda>j. \<Sum>k<n. f ! k * P ! k ! j) [0..<m]"
    by (simp add: flatten_def atleast_2d_def)
  have tsh: "mat_shape m n (transpose_m P)"
    using P n by (rule transpose_shape)
  show ?thesis
  proof (rule nth_equalityI)
    show "length (flatten (matmul (atleast_2d f) P)) = length (matvec (transpose_m P) f)"
      using tsh by (simp add: lhs matvec_length mat_shape_def)
  next
    fix j assume "j < length (flatten (matmul (atleast_2d f) P))"
    then have j: "j < m" by (simp add: lhs)
    have "matvec (transpose_m P) f ! j = (\<Sum>k<n. transpose_m P ! j ! k * f ! k)"
      using tsh j by (rule matvec_nth)
    also have "\<dots> = (\<Sum>k<n. f ! k * P ! k ! j)"
      by (rule sum.cong) (simp_all add: transpose_nth [OF P _ j] mult.commute)
    finally show "flatten (matmul (atleast_2d f) P) ! j = matvec (transpose_m P) f ! j"
      using j by (simp add: lhs)
  qed
qed

section \<open>Properties of the control setpoint\<close>

lemma ls_orth:
  fixes M P :: "nat \<Rightarrow> nat \<Rightarrow> real" and F :: "nat \<Rightarrow> real"
  assumes E1: "\<And>k j. k < m \<Longrightarrow> j < n \<Longrightarrow> (\<Sum>b<m. (\<Sum>i<n. M k i * P i b) * M b j) = M k j"
    and E4: "\<And>i j. i < n \<Longrightarrow> j < n \<Longrightarrow> (\<Sum>b<m. P j b * M b i) = (\<Sum>b<m. P i b * M b j)"
    and k: "k < m"
  shows "(\<Sum>i<n. M k i * ((\<Sum>b<m. M b i * (\<Sum>j<n. P j b * F j)) - F i)) = 0"
proof -
  have A: "(\<Sum>b<m. M b i * (\<Sum>j<n. P j b * F j)) = (\<Sum>j<n. (\<Sum>b<m. P i b * M b j) * F j)"
    if i: "i < n" for i
  proof -
    have "(\<Sum>b<m. M b i * (\<Sum>j<n. P j b * F j)) = (\<Sum>b<m. \<Sum>j<n. P j b * M b i * F j)"
      by (simp add: sum_distrib_left mult.assoc mult.left_commute)
    also have "\<dots> = (\<Sum>j<n. \<Sum>b<m. P j b * M b i * F j)"
      by (rule sum.swap)
    also have "\<dots> = (\<Sum>j<n. (\<Sum>b<m. P j b * M b i) * F j)"
      by (simp add: sum_distrib_right)
    also have "\<dots> = (\<Sum>j<n. (\<Sum>b<m. P i b * M b j) * F j)"
      by (rule sum.cong) (simp_all add: E4 [OF i])
    finally show ?thesis .
  qed
  have B: "(\<Sum>i<n. M k i * (\<Sum>j<n. (\<Sum>b<m. P i b * M b j) * F j))
      = (\<Sum>j<n. (\<Sum>b<m. (\<Sum>i<n. M k i * P i b) * M b j) * F j)"
  proof -
    have "(\<Sum>i<n. M k i * (\<Sum>j<n. (\<Sum>b<m. P i b * M b j) * F j))
        = (\<Sum>i<n. \<Sum>j<n. \<Sum>b<m. M k i * P i b * M b j * F j)"
      by (simp add: sum_distrib_left sum_distrib_right mult.assoc)
    also have "\<dots> = (\<Sum>j<n. \<Sum>i<n. \<Sum>b<m. M k i * P i b * M b j * F j)"
      by (rule sum.swap)
    also have "\<dots> = (\<Sum>j<n. \<Sum>b<m. \<Sum>i<n. M k i * P i b * M b j * F j)"
      by (rule sum.cong [OF refl]) (rule sum.swap)
    also have "\<dots> = (\<Sum>j<n. (\<Sum>b<m. (\<Sum>i<n. M k i * P i b) * M b j) * F j)"
      by (simp add: sum_distrib_left sum_distrib_right mult.assoc)
    finally show ?thesis .
  qed
  have "(\<Sum>i<n. M k i * ((\<Sum>b<m. M b i * (\<Sum>j<n. P j b * F j)) - F i))
      = (\<Sum>i<n. M k i * (\<Sum>b<m. M b i * (\<Sum>j<n. P j b * F j))) - (\<Sum>i<n. M k i * F i)"
    by (simp add: right_diff_distrib sum_subtractf)
  also have "(\<Sum>i<n. M k i * (\<Sum>b<m. M b i * (\<Sum>j<n. P j b * F j)))
      = (\<Sum>i<n. M k i * (\<Sum>j<n. (\<Sum>b<m. P i b * M b j) * F j))"
    by (rule sum.cong) (simp_all add: A)
  also have "\<dots> = (\<Sum>j<n. (\<Sum>b<m. (\<Sum>i<n. M k i * P i b) * M b j) * F j)"
    by (rule B)
  also have "\<dots> = (\<Sum>j<n. M k j * F j)"
    by (rule sum.cong) (simp_all add: E1 [OF k])
  finally show ?thesis by simp
qed

lemma ls_core:
  fixes M :: "nat \<Rightarrow> nat \<Rightarrow> real" and r0 U0 U :: "nat \<Rightarrow> real"
  assumes orth: "\<And>k. k < m \<Longrightarrow> (\<Sum>i<n. M k i * ((\<Sum>b<m. M b i * U0 b) - F i)) = 0"
  shows "(\<Sum>i<n. ((\<Sum>b<m. M b i * U0 b) - F i)\<^sup>2) \<le> (\<Sum>i<n. ((\<Sum>b<m. M b i * U b) - F i)\<^sup>2)"
proof -
  define r0 where "r0 i = (\<Sum>b<m. M b i * U0 b) - F i" for i
  define a where "a i = (\<Sum>b<m. M b i * (U b - U0 b))" for i
  have split: "(\<Sum>b<m. M b i * U b) - F i = a i + r0 i" for i
    by (simp add: a_def r0_def right_diff_distrib sum_subtractf)
  have cross: "(\<Sum>i<n. a i * r0 i) = 0"
  proof -
    have "(\<Sum>i<n. a i * r0 i) = (\<Sum>i<n. \<Sum>b<m. (U b - U0 b) * (M b i * r0 i))"
      by (simp add: a_def sum_distrib_right mult.assoc mult.left_commute)
    also have "\<dots> = (\<Sum>b<m. \<Sum>i<n. (U b - U0 b) * (M b i * r0 i))"
      by (rule sum.swap)
    also have "\<dots> = (\<Sum>b<m. (U b - U0 b) * (\<Sum>i<n. M b i * r0 i))"
      by (simp add: sum_distrib_left)
    also have "\<dots> = (\<Sum>b<m. 0)"
      by (rule sum.cong) (simp_all add: r0_def orth)
    finally show ?thesis by simp
  qed
  have "(\<Sum>i<n. ((\<Sum>b<m. M b i * U b) - F i)\<^sup>2) = (\<Sum>i<n. (a i)\<^sup>2 + 2 * (a i * r0 i) + (r0 i)\<^sup>2)"
    by (simp add: split power2_sum mult.assoc add.commute add.left_commute)
  also have "\<dots> = (\<Sum>i<n. (a i)\<^sup>2) + 2 * (\<Sum>i<n. a i * r0 i) + (\<Sum>i<n. (r0 i)\<^sup>2)"
    by (simp add: sum.distrib sum_distrib_left)
  also have "\<dots> = (\<Sum>i<n. (a i)\<^sup>2) + (\<Sum>i<n. (r0 i)\<^sup>2)"
    by (simp add: cross)
  finally have "(\<Sum>i<n. ((\<Sum>b<m. M b i * U b) - F i)\<^sup>2) = (\<Sum>i<n. (a i)\<^sup>2) + (\<Sum>i<n. (r0 i)\<^sup>2)" .
  moreover have "0 \<le> (\<Sum>i<n. (a i)\<^sup>2)" by (simp add: sum_nonneg)
  ultimately show ?thesis by (simp add: r0_def)
qed

lemma sq_residual_sum:
  assumes A: "mat_shape m n A" and m: "0 < m" and f: "length f = n"
  shows "sq_residual A f u = (\<Sum>i<n. ((\<Sum>b<m. A ! b ! i * u ! b) - f ! i)\<^sup>2)"
proof -
  have tsh: "mat_shape n m (transpose_m A)" using A m by (rule transpose_shape)
  define r where "r = vsub (matvec (transpose_m A) u) f"
  have len: "length r = n"
    using tsh f by (simp add: r_def vsub_def matvec_length mat_shape_def)
  have nth: "r ! i = (\<Sum>b<m. A ! b ! i * u ! b) - f ! i" if i: "i < n" for i
  proof -
    have "matvec (transpose_m A) u ! i = (\<Sum>b<m. transpose_m A ! i ! b * u ! b)"
      using tsh i by (rule matvec_nth)
    also have "\<dots> = (\<Sum>b<m. A ! b ! i * u ! b)"
      by (rule sum.cong) (simp_all add: transpose_nth [OF A _ i])
    finally show ?thesis
      using i f tsh by (simp add: r_def vsub_def matvec_length mat_shape_def)
  qed
  have "sq_residual A f u = dot r r" by (simp add: sq_residual_def r_def Let_def)
  also have "\<dots> = (\<Sum>i<n. r ! i * r ! i)" by (simp add: dot_def len)
  also have "\<dots> = (\<Sum>i<n. ((\<Sum>b<m. A ! b ! i * u ! b) - f ! i)\<^sup>2)"
    by (rule sum.cong) (simp_all add: nth power2_eq_square)
  finally show ?thesis .
qed

lemma pinv_least_squares:
  assumes A: "mat_shape m n A" and X: "mat_shape n m X" and f: "length f = n"
    and n: "0 < n" and m: "0 < m"
    and mp: "moore_penrose A X"
  shows "sq_residual A f (matvec (transpose_m X) f) \<le> sq_residual A f u"
proof -
  have AX: "mat_shape m m (matmul A X)" using A X n by (rule matmul_shape)
  have XA: "mat_shape n n (matmul X A)" using X A m by (rule matmul_shape)
  have AX_nth: "matmul A X ! k ! b = (\<Sum>i<n. A ! k ! i * X ! i ! b)" if "k < m" "b < m" for k b
    using A X m n that by (rule matmul_nth)
  have XA_nth: "matmul X A ! i ! j = (\<Sum>b<m. X ! i ! b * A ! b ! j)" if "i < n" "j < n" for i j
    using X A n m that by (rule matmul_nth)
  have E1: "(\<Sum>b<m. (\<Sum>i<n. A ! k ! i * X ! i ! b) * A ! b ! j) = A ! k ! j"
    if k: "k < m" and j: "j < n" for k j
  proof -
    have "matmul (matmul A X) A ! k ! j = (\<Sum>b<m. matmul A X ! k ! b * A ! b ! j)"
      using AX A m m k j by (rule matmul_nth)
    also have "\<dots> = (\<Sum>b<m. (\<Sum>i<n. A ! k ! i * X ! i ! b) * A ! b ! j)"
      by (rule sum.cong) (simp_all add: AX_nth [OF k])
    finally show ?thesis using mp by (simp add: moore_penrose_def)
  qed
  have E4: "(\<Sum>b<m. X ! j ! b * A ! b ! i) = (\<Sum>b<m. X ! i ! b * A ! b ! j)"
    if i: "i < n" and j: "j < n" for i j
  proof -
    have "transpose_m (matmul X A) ! i ! j = matmul X A ! j ! i"
      using XA j i by (rule transpose_nth)
    then have "matmul X A ! i ! j = matmul X A ! j ! i"
      using mp by (simp add: moore_penrose_def)
    then show ?thesis using i j by (simp add: XA_nth)
  qed
  have tX: "mat_shape m n (transpose_m X)" using X n by (rule transpose_shape)
  have u0: "matvec (transpose_m X) f ! b = (\<Sum>j<n. X ! j ! b * f ! j)" if b: "b < m" for b
  proof -
    have "matvec (transpose_m X) f ! b = (\<Sum>j<n. transpose_m X ! b ! j * f ! j)"
      using tX b by (rule matvec_nth)
    also have "\<dots> = (\<Sum>j<n. X ! j ! b * f ! j)"
      by (rule sum.cong) (simp_all add: transpose_nth [OF X _ b])
    finally show ?thesis .
  qed
  define U0 where "U0 b = (\<Sum>j<n. X ! j ! b * f ! j)" for b
  have orth: "(\<Sum>i<n. A ! k ! i * ((\<Sum>b<m. A ! b ! i * U0 b) - f ! i)) = 0" if "k < m" for k
    unfolding U0_def
    by (rule ls_orth [where M = "\<lambda>k i. A ! k ! i" and P = "\<lambda>i b. X ! i ! b"])
      (simp_all add: E1 E4 that)
  have "sq_residual A f (matvec (transpose_m X) f)
      = (\<Sum>i<n. ((\<Sum>b<m. A ! b ! i * matvec (transpose_m X) f ! b) - f ! i)\<^sup>2)"
    using A m f by (rule sq_residual_sum)
  also have "\<dots> = (\<Sum>i<n. ((\<Sum>b<m. A ! b ! i * U0 b) - f ! i)\<^sup>2)"
    by (simp add: u0 U0_def)
  also have "\<dots> \<le> (\<Sum>i<n. ((\<Sum>b<m. A ! b ! i * u ! b) - f ! i)\<^sup>2)"
    by (rule ls_core [where M = "\<lambda>k i. A ! k ! i"]) (rule orth)
  also have "\<dots> = sq_residual A f u"
    using A m f by (rule sq_residual_sum [symmetric])
  finally show ?thesis .
qed

text \<open>
  C3. With the pseudo-inverse of the \<open>nu\<close> by \<open>nv\<close> moment matrix of shape \<open>nv\<close> by \<open>nu\<close>,
  the flattened row-vector product that the program computes is the vector
  \<open>pinv(moment)\<^sup>T f0\<close>; when the library's result satisfies the Moore-Penrose conditions,
  this vector is a least-squares solution of \<open>moment\<^sup>T u = f0\<close>: no \<open>u\<close> has a smaller
  squared error.
\<close>

theorem ctrl_setpoint_pinv:
  assumes "mat_shape m n moment" and "mat_shape n m (pinv L moment)" and "length f0 = n"
    and "0 < n" and "0 < m"
  shows "ctrl_setpoint L moment f0 = matvec (transpose_m (pinv L moment)) f0
    \<and> (moore_penrose moment (pinv L moment) \<longrightarrow>
         (\<forall>u. length u = m \<longrightarrow>
            sq_residual moment f0 (ctrl_setpoint L moment f0) \<le> sq_residual moment f0 u))"
proof -
  have eq: "ctrl_setpoint L moment f0 = matvec (transpose_m (pinv L moment)) f0"
    unfolding ctrl_setpoint_def using assms(2,3,4) by (rule row_vector_form)
  have "sq_residual moment f0 (matvec (transpose_m (pinv L moment)) f0) \<le> sq_residual moment f0 u"
    if "moore_penrose moment (pinv L moment)" for u
    using assms that by (rule pinv_least_squares)
  with eq show ?thesis by simp
qed

lemma toy_moore_penrose: "moore_penrose [[0, 0, 1]] (pinv toy_numpy [[0, 0, 1]])"
  by code_simp

lemma toy_ctrl_setpoint: "ctrl_setpoint toy_numpy [[0, 0, 1]] [1, 2, 3] = [3]"
  by code_simp

theorem ctrl_setpoint_pinv_witness:
  "ctrl_setpoint toy_numpy [[0, 0, 1]] [1, 2, 3] = [3]
   \<and> ctrl_setpoint toy_numpy [[0, 0, 1]] [1, 2, 3]
       = matvec (transpose_m (pinv toy_numpy [[0, 0, 1]])) [1, 2, 3]
   \<and> moore_penrose [[0, 0, 1]] (pinv toy_numpy [[0, 0, 1]])
   \<and> sq_residual [[0, 0, 1]] [1, 2, 3] (ctrl_setpoint toy_numpy [[0, 0, 1]] [1, 2, 3])
        \<le> sq_residual [[0, 0, 1]] [1, 2, 3] [7]"
proof -
  have sh: "mat_shape 1 3 [[0, 0, 1 :: real]]" by (simp add: mat_shape_def)
  have shp: "mat_shape 3 1 (pinv toy_numpy [[0, 0, 1]])" by code_simp
  have len: "length [1, 2, 3 :: real] = 3" by simp
  have pos: "0 < (3::nat)" "0 < (1::nat)" by simp_all
  show ?thesis
    using ctrl_setpoint_pinv [OF sh shp len pos] toy_moore_penrose toy_ctrl_setpoint
    by (elim conjE impE allE [where x = "[7]"]) simp_all
qed

section \<open>Properties of the cost matrices\<close>






































section \<open>Properties of the linearizer\<close>




section \<open>Properties of the closed loop\<close>

lemma vsub_zero: "vsub v (replicate (length v) 0) = v"
  by (induction v) (simp_all add: vsub_def)

lemma lqr_ctrl_law:
  "lqr_ctrl M qpos0 ctrl0 K d
     = control_law ctrl0 K (state_deviation M qpos0 (replicate (length (qvel d)) 0) d)"
  by (simp add: lqr_ctrl_def control_law_def state_deviation_def vsub_zero Let_def)

text \<open>
  C8. In both loops the command of a tick is the setpoint minus the gain applied to the
  state deviation: the simulator's position difference between the trim position and the
  current position, taken with the time step 1, followed by the velocity minus the zero
  trim velocity. In the disturbed loop the sample of the current step, \<open>CTRL_STD\<close> times
  the row \<open>step\<close> of the smoothed noise, is added. Every iteration of either loop is one
  such tick.
\<close>

theorem lqr_control_law:
  "lqr_tick M qpos0 ctrl0 K d
     = mj_step M (d\<lparr>ctrl :=
         control_law ctrl0 K (state_deviation M qpos0 (replicate (length (qvel d)) 0) d)\<rparr>)
   \<and> (step < length perturb \<longrightarrow>
        disturbed_tick M qpos0 ctrl0 K stds perturb (d, step)
          = Inr (mj_step M (d\<lparr>ctrl :=
                   vadd (control_law ctrl0 K
                           (state_deviation M qpos0 (replicate (length (qvel d)) 0) d))
                        (vmul stds (perturb ! step))\<rparr>),
                 step + 1))
   \<and> (time d < DURATION_standing \<longrightarrow>
        lqr_loop M qpos0 ctrl0 K d = lqr_loop M qpos0 ctrl0 K (lqr_tick M qpos0 ctrl0 K d))
   \<and> (time d < DURATION \<longrightarrow> step < length perturb \<longrightarrow>
        disturbed_loop M qpos0 ctrl0 K stds perturb (d, step)
          = disturbed_loop M qpos0 ctrl0 K stds perturb
              (mj_step M (d\<lparr>ctrl :=
                   vadd (control_law ctrl0 K
                           (state_deviation M qpos0 (replicate (length (qvel d)) 0) d))
                        (vmul stds (perturb ! step))\<rparr>),
               step + 1))"
proof -
  have tick: "lqr_tick M qpos0 ctrl0 K d
     = mj_step M (d\<lparr>ctrl :=
         control_law ctrl0 K (state_deviation M qpos0 (replicate (length (qvel d)) 0) d)\<rparr>)"
    by (simp add: lqr_tick_def lqr_ctrl_law)
  have dtick: "disturbed_tick M qpos0 ctrl0 K stds perturb (d, step)
          = Inr (mj_step M (d\<lparr>ctrl :=
                   vadd (control_law ctrl0 K
                           (state_deviation M qpos0 (replicate (length (qvel d)) 0) d))
                        (vmul stds (perturb ! step))\<rparr>),
                 step + 1)" if "step < length perturb"
    using that by (simp add: disturbed_tick_def get_def lqr_ctrl_law)
  have loop: "lqr_loop M qpos0 ctrl0 K d = lqr_loop M qpos0 ctrl0 K (lqr_tick M qpos0 ctrl0 K d)"
    if "time d < DURATION_standing"
    using that by (subst lqr_loop.simps) simp
  have dloop: "disturbed_loop M qpos0 ctrl0 K stds perturb (d, step)
          = disturbed_loop M qpos0 ctrl0 K stds perturb
              (mj_step M (d\<lparr>ctrl :=
                   vadd (control_law ctrl0 K
                           (state_deviation M qpos0 (replicate (length (qvel d)) 0) d))
                        (vmul stds (perturb ! step))\<rparr>),
               step + 1)"
    if "time d < DURATION" "step < length perturb"
    using that by (subst disturbed_loop.simps) (simp add: dtick)
  from tick dtick loop dloop show ?thesis by blast
qed

lemma toy_ticks:
  "lqr_tick toy_model (replicate 9 0) [1] [replicate 16 0] toy_data
     = toy_data\<lparr>ctrl := [1], time := 1 / 2\<rparr>"
  "disturbed_tick toy_model (replicate 9 0) [1] [replicate 16 0] [1 / 100] [[1 / 2]] (toy_data, 0)
     = Inr (toy_data\<lparr>ctrl := [201 / 200], time := 1 / 2\<rparr>, 1)"
  by code_simp+

theorem lqr_control_law_witness:
  "lqr_tick toy_model (replicate 9 0) [1] [replicate 16 0] toy_data
     = toy_data\<lparr>ctrl := [1], time := 1 / 2\<rparr>
   \<and> disturbed_tick toy_model (replicate 9 0) [1] [replicate 16 0] [1 / 100] [[1 / 2]] (toy_data, 0)
       = Inr (toy_data\<lparr>ctrl := [201 / 200], time := 1 / 2\<rparr>, 1)
   \<and> lqr_tick toy_model (replicate 9 0) [1] [replicate 16 0] toy_data
     = mj_step toy_model (toy_data\<lparr>ctrl :=
         control_law [1] [replicate 16 0]
           (state_deviation toy_model (replicate 9 0) (replicate (length (qvel toy_data)) 0) toy_data)\<rparr>)
   \<and> disturbed_tick toy_model (replicate 9 0) [1] [replicate 16 0] [1 / 100] [[1 / 2]] (toy_data, 0)
       = Inr (mj_step toy_model (toy_data\<lparr>ctrl :=
                vadd (control_law [1] [replicate 16 0]
                        (state_deviation toy_model (replicate 9 0)
                           (replicate (length (qvel toy_data)) 0) toy_data))
                     (vmul [1 / 100] ([[1 / 2]] ! 0))\<rparr>),
              0 + 1)
   \<and> lqr_loop toy_model (replicate 9 0) [1] [replicate 16 0] toy_data
       = lqr_loop toy_model (replicate 9 0) [1] [replicate 16 0]
           (lqr_tick toy_model (replicate 9 0) [1] [replicate 16 0] toy_data)"
proof -
  have a: "(0::nat) < length [[1 / 2 :: real]]" by simp
  have b: "time toy_data < DURATION_standing"
    by (simp add: toy_data_def DURATION_standing_def)
  show ?thesis
    using lqr_control_law [of toy_model "replicate 9 0" "[1]" "[replicate 16 0]" toy_data
        0 "[[1 / 2]]" "[1 / 100]"] a b toy_ticks
    by blast
qed

section \<open>Properties of the disturbed run\<close>









text \<open>
  C10. The generator is seeded with 1 before the draw, so the disturbance, and with it the
  whole disturbed run, does not depend on the state of the random generator when the cell
  starts: two executions from any two generator states give the same result.
\<close>

theorem disturbance_deterministic:
  "disturbance M L g = disturbance M L g'
   \<and> disturbed_run M L g qpos0 ctrl0 K = disturbed_run M L g' qpos0 ctrl0 K"
  by (simp add: disturbance_def disturbed_run_def)

end
